theory Spec2Isabelle
  imports Complex_Main "HOL-Library.Multiset" "HOL-Library.List_Lexorder" "HOL-Library.Char_ord"
    "HOL-Library.Log_Nat"
begin

section \<open>The train/dev/test split of the transistor image tutorial\<close>

text \<open>
  The notebook \<^verbatim>\<open>hardware_image/transistor_image_tutorial.ipynb\<close> contains one piece of
  logic of its own, the cell of section 1.3:
  \<^verbatim>\<open>
  docs = session.query(Document).order_by(Document.name).all()
  ld   = len(docs)

  train_docs = set()
  dev_docs   = set()
  test_docs  = set()
  splits = (0.5, 0.75)
  data = [(doc.name, doc) for doc in docs]
  data.sort(key=lambda x: x[0])
  for i, (doc_name, doc) in enumerate(data):
      if i < splits[0] * ld:
          train_docs.add(doc)
      elif i < splits[1] * ld:
          dev_docs.add(doc)
      else:
          test_docs.add(doc)
  \<close>
  The first line is a query of the external framework; its result, the list \<open>docs\<close>, is the
  input of the model. Everything after it is embedded below.
\<close>

subsection \<open>Data\<close>

text \<open>
  A document exposes a \<open>name\<close>; whatever else the framework stores in it (primary key, text,
  metadata) is the extension part of the record, so that two documents may carry the same
  name and still be different documents.
\<close>

record document =
  name :: string

text \<open>
  The variables the cell reads and writes. A state before the cell holds the queried
  \<open>docs\<close>; the other variables hold whatever an earlier run of the cell left in them.
  The fractions are Python floats. A float is given here by the rational number it is
  written as; \<open>to_double\<close> below gives the double Python holds for it, and is the
  identity on the value of a double. The cell is embedded twice: with the products
  \<open>splits[k] * ld\<close> taken exactly, as the rule of the specification reads them, and with
  the products as Python computes them, in double arithmetic. The two agree whenever the
  double products are exact, as they are for the notebook's \<open>0.5\<close> and \<open>0.75\<close> and
  fewer than \<open>2 ^ 51\<close> documents.
\<close>

record 'm cell_state =
  docs :: "'m document_scheme list"
  ld :: nat
  train_docs :: "'m document_scheme set"
  dev_docs :: "'m document_scheme set"
  test_docs :: "'m document_scheme set"
  splits :: "rat \<times> rat"
  data :: "(string \<times> 'm document_scheme) list"

datatype error = InvalidArgument

subsection \<open>The loop and the cell, with exact products\<close>

text \<open>
  \<^verbatim>\<open>for i, (doc_name, doc) in enumerate(data)\<close>: the loop walks the list of pairs of a
  rank and an entry of \<open>data\<close>, and adds the document to one of the three sets.
  \<open>splits[0]\<close> and \<open>splits[1]\<close> are the components of the pair. Here the rank is
  compared with the exact product of the fraction and \<open>ld\<close>; the loop that compares with
  the double product is \<open>split_loop_double\<close> below.
\<close>

fun split_loop ::
  "(nat \<times> string \<times> 'm document_scheme) list \<Rightarrow> 'm cell_state \<Rightarrow> 'm cell_state" where
  "split_loop [] s = s"
| "split_loop ((i, doc_name, doc) # rest) s =
     split_loop rest
       (if of_nat i < fst (splits s) * of_nat (ld s)
          then s\<lparr>train_docs := insert doc (train_docs s)\<rparr>
        else if of_nat i < snd (splits s) * of_nat (ld s)
          then s\<lparr>dev_docs := insert doc (dev_docs s)\<rparr>
        else s\<lparr>test_docs := insert doc (test_docs s)\<rparr>)"

text \<open>
  The cell, statement by statement, with the pair assigned to \<open>splits\<close> taken as a
  parameter. Python's \<open>list.sort\<close> with a key is a stable sort on the key, as
  \<^const>\<open>sort_key\<close> is; names are compared as Python compares strings, character by
  character and a proper prefix first.
\<close>

definition split_cell :: "rat \<times> rat \<Rightarrow> 'm cell_state \<Rightarrow> 'm cell_state" where
  "split_cell sp s0 =
     (let s1 = s0\<lparr>ld := length (docs s0)\<rparr>;
          s2 = s1\<lparr>train_docs := {}\<rparr>;
          s3 = s2\<lparr>dev_docs := {}\<rparr>;
          s4 = s3\<lparr>test_docs := {}\<rparr>;
          s5 = s4\<lparr>splits := sp\<rparr>;
          s6 = s5\<lparr>data := map (\<lambda>doc. (name doc, doc)) (docs s5)\<rparr>;
          s7 = s6\<lparr>data := sort_key fst (data s6)\<rparr>
      in split_loop (enumerate 0 (data s7)) s7)"

text \<open>The pair the notebook assigns: \<^verbatim>\<open>splits = (0.5, 0.75)\<close>.\<close>

definition tutorial_splits :: "rat \<times> rat" where
  "tutorial_splits = (1 / 2, 3 / 4)"

text \<open>
  The outcome of running the cell with fractions \<open>f1\<close> and \<open>f2\<close>: an exception or the
  state after the loop. The cell has no \<^verbatim>\<open>raise\<close> and no check of \<open>splits\<close>, and each of
  its operations (\<open>len\<close>, \<open>set.add\<close>, indexing a pair at 0 and 1, sorting on string keys,
  comparing an integer with a float) is defined on every value of its type, so the outcome
  is always a state.
\<close>

definition partition_docs :: "rat \<Rightarrow> rat \<Rightarrow> 'm cell_state \<Rightarrow> error + 'm cell_state" where
  "partition_docs f1 f2 s = Inr (split_cell (f1, f2) s)"

text \<open>A state that holds the queried documents and nothing else yet.\<close>

definition loaded :: "'m document_scheme list \<Rightarrow> 'm cell_state" where
  "loaded ds = \<lparr>docs = ds, ld = 0, train_docs = {}, dev_docs = {}, test_docs = {},
     splits = (0, 0), data = []\<rparr>"

subsection \<open>Double arithmetic\<close>

text \<open>
  Python's float is the IEEE 754 binary64 format: a finite double is \<open>m * 2 ^ e\<close> with an
  integer \<open>m\<close> of at most 53 bits and \<open>e\<close> from \<open>-1074\<close> up, below \<open>2 ^ 1024\<close> in
  magnitude. Every operation returns the double nearest to the exact result, a tie going to
  the even \<open>m\<close>, and an infinity when that double would be \<open>2 ^ 1024\<close> or more in
  magnitude.

  Rounding to the nearest integer, ties to even:
\<close>

definition round_even :: "rat \<Rightarrow> int" where
  "round_even x =
     (let n = \<lfloor>x\<rfloor>; r = x - of_int n
      in if r < 1 / 2 then n else if 1 / 2 < r then n + 1 else if even n then n else n + 1)"

text \<open>
  The integer part of the binary logarithm of a positive rational, from the bit lengths of
  its numerator and denominator.
\<close>

definition ilog2 :: "rat \<Rightarrow> int" where
  "ilog2 x =
     (let d = bitlen (fst (quotient_of x)) - bitlen (snd (quotient_of x))
      in if 2 powi d \<le> x then d else d - 1)"

text \<open>
  The exponent of the grid a number is rounded on: 52 below its binary logarithm, and
  \<open>-1074\<close> at least (the subnormal range). \<open>round53\<close> rounds on that grid, without the
  upper bound on the exponent; \<open>representable53\<close> are the numbers it can return.
\<close>

definition exponent53 :: "rat \<Rightarrow> int" where
  "exponent53 x = max (- 1074) (ilog2 \<bar>x\<bar> - 52)"

definition round53 :: "rat \<Rightarrow> rat" where
  "round53 x =
     (if x = 0 then 0
      else of_int (round_even (x / 2 powi exponent53 x)) * 2 powi exponent53 x)"

definition representable53 :: "rat \<Rightarrow> bool" where
  "representable53 x = (\<exists>m e. \<bar>m\<bar> \<le> 2 ^ 53 \<and> - 1074 \<le> e \<and> x = of_int m * 2 powi e)"

text \<open>
  A double that is not a finite number is an infinity or a NaN. \<open>to_double\<close> is the
  conversion of a decimal literal, and of the exact result of an operation, to a double.
\<close>

datatype double = Finite rat | PosInf | NegInf | NaN

definition to_double :: "rat \<Rightarrow> double" where
  "to_double x =
     (let y = round53 x
      in if of_int (2 ^ 1024) \<le> y then PosInf
         else if y \<le> - of_int (2 ^ 1024) then NegInf
         else Finite y)"

text \<open>
  \<open>float * int\<close> converts the integer to a double first, rounding to nearest. (Python
  raises OverflowError for an integer of \<open>2 ^ 1024\<close> or more; the length of a list is
  below \<open>2 ^ 63\<close>, so the cell never converts one.)
\<close>

definition int_to_double :: "nat \<Rightarrow> double" where
  "int_to_double n = to_double (of_nat n)"

text \<open>
  The product of two doubles: the exact product rounded; an infinity times a number takes
  the sign of the product, and is NaN when the number is zero.
\<close>

fun inf_times :: "double \<Rightarrow> rat \<Rightarrow> double" where
  "inf_times PosInf b = (if b = 0 then NaN else if 0 < b then PosInf else NegInf)"
| "inf_times NegInf b = (if b = 0 then NaN else if 0 < b then NegInf else PosInf)"
| "inf_times x b = NaN"

fun double_mul :: "double \<Rightarrow> double \<Rightarrow> double" where
  "double_mul (Finite a) (Finite b) = to_double (a * b)"
| "double_mul NaN y = NaN"
| "double_mul x NaN = NaN"
| "double_mul (Finite a) y = inf_times y a"
| "double_mul x (Finite b) = inf_times x b"
| "double_mul x y = (if x = y then PosInf else NegInf)"

text \<open>
  \<open>i < x\<close> for an integer \<open>i\<close> and a double \<open>x\<close>: Python compares the exact values, and
  a comparison with NaN is false.
\<close>

fun int_lt :: "nat \<Rightarrow> double \<Rightarrow> bool" where
  "int_lt i (Finite q) = (of_nat i < q)"
| "int_lt i PosInf = True"
| "int_lt i NegInf = False"
| "int_lt i NaN = False"

text \<open>
  \<open>splits[k] * ld\<close> as the cell evaluates it, and the condition under which that product
  is exact: the fraction and the length are doubles, and so is their product.
\<close>

definition threshold :: "rat \<Rightarrow> nat \<Rightarrow> double" where
  "threshold f n = double_mul (to_double f) (int_to_double n)"

definition exact_product :: "rat \<Rightarrow> nat \<Rightarrow> bool" where
  "exact_product f n =
     (to_double f = Finite f \<and> int_to_double n = Finite (of_nat n) \<and>
      to_double (f * of_nat n) = Finite (f * of_nat n))"

subsection \<open>The loop and the cell, in double arithmetic\<close>

text \<open>
  The same loop and the same cell, the rank compared with the double product as Python
  computes it.
\<close>

fun split_loop_double ::
  "(nat \<times> string \<times> 'm document_scheme) list \<Rightarrow> 'm cell_state \<Rightarrow> 'm cell_state" where
  "split_loop_double [] s = s"
| "split_loop_double ((i, doc_name, doc) # rest) s =
     split_loop_double rest
       (if int_lt i (threshold (fst (splits s)) (ld s))
          then s\<lparr>train_docs := insert doc (train_docs s)\<rparr>
        else if int_lt i (threshold (snd (splits s)) (ld s))
          then s\<lparr>dev_docs := insert doc (dev_docs s)\<rparr>
        else s\<lparr>test_docs := insert doc (test_docs s)\<rparr>)"

definition split_cell_double :: "rat \<times> rat \<Rightarrow> 'm cell_state \<Rightarrow> 'm cell_state" where
  "split_cell_double sp s0 =
     (let s1 = s0\<lparr>ld := length (docs s0)\<rparr>;
          s2 = s1\<lparr>train_docs := {}\<rparr>;
          s3 = s2\<lparr>dev_docs := {}\<rparr>;
          s4 = s3\<lparr>test_docs := {}\<rparr>;
          s5 = s4\<lparr>splits := sp\<rparr>;
          s6 = s5\<lparr>data := map (\<lambda>doc. (name doc, doc)) (docs s5)\<rparr>;
          s7 = s6\<lparr>data := sort_key fst (data s6)\<rparr>
      in split_loop_double (enumerate 0 (data s7)) s7)"


subsection \<open>What the loop does to the state\<close>

text \<open>
  The loop writes the three sets only. Each set grows by the documents whose rank passes
  the test of the branch that adds to it.
\<close>

lemma split_loop_frame:
  "docs (split_loop es s) = docs s \<and> ld (split_loop es s) = ld s \<and>
   splits (split_loop es s) = splits s \<and> data (split_loop es s) = data s"
  by (induction es s rule: split_loop.induct) simp_all

lemma split_loop_train:
  "train_docs (split_loop es s) =
     train_docs s \<union> {d. \<exists>k nm. (k, nm, d) \<in> set es \<and> of_nat k < fst (splits s) * of_nat (ld s)}"
  by (induction es s rule: split_loop.induct) auto

lemma split_loop_dev:
  "dev_docs (split_loop es s) =
     dev_docs s \<union> {d. \<exists>k nm. (k, nm, d) \<in> set es \<and> \<not> of_nat k < fst (splits s) * of_nat (ld s)
        \<and> of_nat k < snd (splits s) * of_nat (ld s)}"
  by (induction es s rule: split_loop.induct) auto

lemma split_loop_test:
  "test_docs (split_loop es s) =
     test_docs s \<union> {d. \<exists>k nm. (k, nm, d) \<in> set es \<and> \<not> of_nat k < fst (splits s) * of_nat (ld s)
        \<and> \<not> of_nat k < snd (splits s) * of_nat (ld s)}"
  by (induction es s rule: split_loop.induct) auto

subsection \<open>The sorted list of pairs\<close>

text \<open>
  Sorting the pairs on their first component orders the documents by name, and the
  enumeration pairs each of them with its position in that order.
\<close>

lemma insort_key_map:
  "insort_key f (g x) (map g ys) = map g (insort_key (\<lambda>y. f (g y)) x ys)"
  by (induction ys) simp_all

lemma sort_key_map:
  "sort_key f (map g xs) = map g (sort_key (\<lambda>y. f (g y)) xs)"
  by (induction xs) (simp_all add: insort_key_map)

lemma data_sorted:
  "sort_key fst (map (\<lambda>doc. (name doc, doc)) ds) = map (\<lambda>doc. (name doc, doc)) (sort_key name ds)"
  by (simp add: sort_key_map)

lemma enumerate_data:
  "((k, nm, d) \<in> set (enumerate 0 (map (\<lambda>doc. (name doc, doc)) xs))) =
     (k < length xs \<and> d = xs ! k \<and> nm = name (xs ! k))"
  by (auto simp: in_set_enumerate_eq)

subsection \<open>The three sets after the cell\<close>

text \<open>
  With \<open>n\<close> the number of documents and \<open>sort_key name (docs s)\<close> the documents in
  name order, each set after the cell is the set of documents at the ranks that reach its
  branch.
\<close>

lemma split_cell_train:
  "train_docs (split_cell (f1, f2) s) =
     {sort_key name (docs s) ! k | k. k < length (docs s) \<and> of_nat k < f1 * of_nat (length (docs s))}"
  by (auto simp: split_cell_def Let_def split_loop_train split_loop_frame data_sorted enumerate_data)

lemma split_cell_dev:
  "dev_docs (split_cell (f1, f2) s) =
     {sort_key name (docs s) ! k | k. k < length (docs s) \<and> \<not> of_nat k < f1 * of_nat (length (docs s))
        \<and> of_nat k < f2 * of_nat (length (docs s))}"
  by (auto simp: split_cell_def Let_def split_loop_dev split_loop_frame data_sorted enumerate_data)

lemma split_cell_test:
  "test_docs (split_cell (f1, f2) s) =
     {sort_key name (docs s) ! k | k. k < length (docs s) \<and> \<not> of_nat k < f1 * of_nat (length (docs s))
        \<and> \<not> of_nat k < f2 * of_nat (length (docs s))}"
  by (auto simp: split_cell_def Let_def split_loop_test split_loop_frame data_sorted enumerate_data)

lemma split_cell_frame:
  "docs (split_cell sp s) = docs s"
  by (simp add: split_cell_def Let_def split_loop_frame)

lemma split_cell_vars:
  "ld (split_cell sp s) = length (docs s) \<and> splits (split_cell sp s) = sp \<and>
   data (split_cell sp s) = sort_key fst (map (\<lambda>doc. (name doc, doc)) (docs s))"
  by (simp add: split_cell_def Let_def split_loop_frame)

lemma ranked_distinct: "distinct ds \<Longrightarrow> distinct (sort_key name ds)"
  by simp

lemma names_distinct: "distinct (map name ds) \<Longrightarrow> distinct ds"
  by (simp add: distinct_map)

lemma ranked_nth_eq:
  "distinct ds \<Longrightarrow> j < length ds \<Longrightarrow> k < length ds \<Longrightarrow>
     (sort_key name ds ! j = sort_key name ds ! k) = (j = k)"
  by (simp add: nth_eq_iff_index_eq)

lemma split_cell_cover:
  "train_docs (split_cell (f1, f2) s) \<union> dev_docs (split_cell (f1, f2) s)
     \<union> test_docs (split_cell (f1, f2) s) = set (docs s)"
proof -
  have "set (docs s) = {sort_key name (docs s) ! k | k. k < length (docs s)}"
    using set_conv_nth [of "sort_key name (docs s)"] by simp
  then show ?thesis
    unfolding split_cell_train split_cell_dev split_cell_test by blast
qed

lemma split_cell_disjoint:
  assumes "distinct (docs s)"
  shows "train_docs (split_cell (f1, f2) s) \<inter> dev_docs (split_cell (f1, f2) s) = {}"
    and "train_docs (split_cell (f1, f2) s) \<inter> test_docs (split_cell (f1, f2) s) = {}"
    and "dev_docs (split_cell (f1, f2) s) \<inter> test_docs (split_cell (f1, f2) s) = {}"
  unfolding split_cell_train split_cell_dev split_cell_test
  using assms by (auto simp: ranked_nth_eq)

lemma split_cell_member:
  assumes "distinct (docs s)" "i < length (docs s)"
  shows "(sort_key name (docs s) ! i \<in> train_docs (split_cell (f1, f2) s)) =
           (of_nat i < f1 * of_nat (length (docs s)))"
    and "(sort_key name (docs s) ! i \<in> dev_docs (split_cell (f1, f2) s)) =
           (\<not> of_nat i < f1 * of_nat (length (docs s)) \<and> of_nat i < f2 * of_nat (length (docs s)))"
    and "(sort_key name (docs s) ! i \<in> test_docs (split_cell (f1, f2) s)) =
           (\<not> of_nat i < f1 * of_nat (length (docs s)) \<and> \<not> of_nat i < f2 * of_nat (length (docs s)))"
  unfolding split_cell_train split_cell_dev split_cell_test
  using assms by (auto simp: ranked_nth_eq)

lemma same_set_same_rank:
  assumes "set xs = set ys" "distinct (map name xs)" "distinct (map name ys)"
  shows "sort_key name xs = sort_key name ys"
proof -
  have "mset xs = mset ys"
    using assms by (simp add: set_eq_iff_mset_eq_distinct names_distinct)
  moreover have "inj_on name (set xs)"
    using assms(2) by (simp add: distinct_map)
  ultimately show ?thesis by (rule sort_key_eq_sort_key)
qed

lemma same_rank_same_split:
  assumes "sort_key name (docs s) = sort_key name (docs s')"
  shows "train_docs (split_cell (f1, f2) s) = train_docs (split_cell (f1, f2) s')"
    and "dev_docs (split_cell (f1, f2) s) = dev_docs (split_cell (f1, f2) s')"
    and "test_docs (split_cell (f1, f2) s) = test_docs (split_cell (f1, f2) s')"
proof -
  have "length (sort_key name (docs s)) = length (sort_key name (docs s'))"
    using assms by simp
  then have "length (docs s) = length (docs s')" by simp
  then show "train_docs (split_cell (f1, f2) s) = train_docs (split_cell (f1, f2) s')"
    and "dev_docs (split_cell (f1, f2) s) = dev_docs (split_cell (f1, f2) s')"
    and "test_docs (split_cell (f1, f2) s) = test_docs (split_cell (f1, f2) s')"
    unfolding split_cell_train split_cell_dev split_cell_test using assms by simp_all
qed

lemma loaded_docs: "docs (loaded ds) = ds"
  by (simp add: loaded_def)

subsection \<open>Rounding to the nearest double\<close>

text \<open>
  \<open>round_even\<close> returns an integer nearest to its argument, and \<open>ilog2\<close> brackets a
  positive number between two powers of two.
\<close>

lemma round_even_cases:
  "round_even x = \<lfloor>x\<rfloor> \<and> x - of_int \<lfloor>x\<rfloor> \<le> 1 / 2 \<or>
   round_even x = \<lfloor>x\<rfloor> + 1 \<and> 1 / 2 \<le> x - of_int \<lfloor>x\<rfloor>"
  by (auto simp: round_even_def Let_def)

lemma nearest_of_floor:
  fixes x n j r :: rat
  assumes "n \<le> x" and "x < n + 1" and "j \<le> n \<or> n + 1 \<le> j"
    and "r = n \<and> x - n \<le> 1 / 2 \<or> r = n + 1 \<and> 1 / 2 \<le> x - n"
  shows "\<bar>x - r\<bar> \<le> \<bar>x - j\<bar>"
  using assms by arith

lemma round_even_nearest:
  "\<bar>x - of_int (round_even x)\<bar> \<le> \<bar>x - of_int j\<bar>"
proof -
  have f: "of_int \<lfloor>x\<rfloor> \<le> x" "x < of_int \<lfloor>x\<rfloor> + 1"
    by linarith+
  have "j \<le> \<lfloor>x\<rfloor> \<or> \<lfloor>x\<rfloor> + 1 \<le> j"
    by linarith
  then have j: "(of_int j :: rat) \<le> of_int \<lfloor>x\<rfloor> \<or> (of_int \<lfloor>x\<rfloor> :: rat) + 1 \<le> of_int j"
  proof
    assume "j \<le> \<lfloor>x\<rfloor>"
    then have "(of_int j :: rat) \<le> of_int \<lfloor>x\<rfloor>" by simp
    then show ?thesis ..
  next
    assume "\<lfloor>x\<rfloor> + 1 \<le> j"
    then have "(of_int (\<lfloor>x\<rfloor> + 1) :: rat) \<le> of_int j" by (simp only: of_int_le_iff)
    then show ?thesis by simp
  qed
  have r: "(of_int (round_even x) :: rat) = of_int \<lfloor>x\<rfloor> \<and> x - of_int \<lfloor>x\<rfloor> \<le> 1 / 2 \<or>
     (of_int (round_even x) :: rat) = of_int \<lfloor>x\<rfloor> + 1 \<and> 1 / 2 \<le> x - of_int \<lfloor>x\<rfloor>"
    using round_even_cases [of x] by auto
  show ?thesis
    using f j r by (rule nearest_of_floor)
qed

lemma round_even_half: "\<bar>x - of_int (round_even x)\<bar> \<le> 1 / 2"
  using round_even_cases [of x] by (auto simp: abs_if) linarith+

lemma round_even_bound:
  assumes "\<bar>x\<bar> \<le> of_int b"
  shows "\<bar>round_even x\<bar> \<le> b"
proof -
  have "\<bar>x - of_int (round_even x)\<bar> \<le> \<bar>x - of_int b\<bar>"
    and "\<bar>x - of_int (round_even x)\<bar> \<le> \<bar>x - of_int (- b)\<bar>"
    by (rule round_even_nearest)+
  then have "(of_int (round_even x) :: rat) \<le> of_int b \<and> (- of_int b :: rat) \<le> of_int (round_even x)"
    using assms by (auto simp: abs_if split: if_splits) 
  then have "round_even x \<le> b \<and> - b \<le> round_even x"
    by (metis of_int_le_iff of_int_minus)
  then show ?thesis by linarith
qed

lemma ilog2_bounds:
  assumes "0 < x"
  shows "2 powi ilog2 x \<le> x" and "x < 2 powi (ilog2 x + 1)"
proof -
  obtain p q where pq: "quotient_of x = (p, q)"
    by (cases "quotient_of x")
  then have q: "0 < q" and x: "x = of_int p / of_int q"
    by (simp_all add: quotient_of_denom_pos quotient_of_div)
  with assms have p: "0 < p"
    by (simp add: zero_less_divide_iff)
  let ?a = "bitlen p" and ?b = "bitlen q"
  have a1: "1 \<le> ?a" and b1: "1 \<le> ?b"
    using p q bitlen_eq_zero_iff [of p] bitlen_eq_zero_iff [of q] bitlen_nonneg [of p] bitlen_nonneg [of q]
    by linarith+
  have pw: "(2::rat) powi k = 2 ^ nat k" if "0 \<le> k" for k
    using that by (simp add: power_int_def)
  have "2 ^ nat (?a - 1) \<le> p" "p < 2 ^ nat ?a" "2 ^ nat (?b - 1) \<le> q" "q < 2 ^ nat ?b"
    using bitlen_bounds [OF p] bitlen_bounds [OF q] by simp_all
  then have "(of_int (2 ^ nat (?a - 1)) :: rat) \<le> of_int p" "(of_int p :: rat) < of_int (2 ^ nat ?a)"
    "(of_int (2 ^ nat (?b - 1)) :: rat) \<le> of_int q" "(of_int q :: rat) < of_int (2 ^ nat ?b)"
    by (simp_all only: of_int_le_iff of_int_less_iff)
  then have bp: "2 powi (?a - 1) \<le> (of_int p :: rat)" "(of_int p :: rat) < 2 powi ?a"
    and bq: "2 powi (?b - 1) \<le> (of_int q :: rat)" "(of_int q :: rat) < 2 powi ?b"
    using a1 b1 by (simp_all add: pw)
  have qpos: "(0::rat) < of_int q" using q by simp
  have ppos: "(0::rat) < of_int p" using p by simp
  have up: "x < 2 powi (?a - ?b + 1)"
  proof -
    have "x < 2 powi ?a / of_int q"
      unfolding x using bp(2) qpos by (simp add: divide_strict_right_mono)
    also have "\<dots> \<le> 2 powi ?a / 2 powi (?b - 1)"
      using bq(1) by (simp add: frac_le)
    also have "\<dots> = 2 powi (?a - (?b - 1))"
      by (simp add: power_int_diff)
    finally show ?thesis by (simp add: algebra_simps)
  qed
  have lo: "2 powi (?a - ?b - 1) < x"
  proof -
    have "2 powi (?a - ?b - 1) = (2::rat) powi (?a - 1) / 2 powi ?b"
      by (simp add: power_int_diff [symmetric] algebra_simps)
    also have "\<dots> < 2 powi (?a - 1) / of_int q"
      using bq(2) qpos by (simp add: divide_strict_left_mono)
    also have "\<dots> \<le> x"
      unfolding x using bp(1) qpos by (simp add: divide_right_mono)
    finally show ?thesis .
  qed
  show "2 powi ilog2 x \<le> x"
    using lo by (auto simp: ilog2_def Let_def pq)
  show "x < 2 powi (ilog2 x + 1)"
    using up by (auto simp: ilog2_def Let_def pq not_le)
qed

text \<open>
  The grid of \<open>round53\<close> is fine enough for 53 bits and, above the subnormal range, no
  finer. So \<open>round53\<close> returns a representable number, and one nearest to its argument
  among all representable numbers: a representable number off the grid lies below the
  \<open>2 ^ 52\<close>-th grid point in magnitude, which is itself no further away.
\<close>

lemma exponent53_lower: "- 1074 \<le> exponent53 x"
  by (simp add: exponent53_def)

lemma exponent53_upper:
  assumes "x \<noteq> 0"
  shows "\<bar>x\<bar> < 2 ^ 53 * 2 powi exponent53 x"
proof -
  have "\<bar>x\<bar> < 2 powi (ilog2 \<bar>x\<bar> + 1)"
    using assms by (simp add: ilog2_bounds)
  also have "\<dots> \<le> 2 powi (exponent53 x + 53)"
    by (rule power_int_increasing) (simp_all add: exponent53_def)
  also have "\<dots> = 2 ^ 53 * 2 powi exponent53 x"
    by (simp add: power_int_add)
  finally show ?thesis .
qed

lemma exponent53_normal:
  assumes "x \<noteq> 0" and "exponent53 x \<noteq> - 1074"
  shows "2 ^ 52 * 2 powi exponent53 x \<le> \<bar>x\<bar>"
proof -
  have e: "exponent53 x = ilog2 \<bar>x\<bar> - 52"
    using assms(2) by (simp add: exponent53_def max_def split: if_splits)
  have "2 ^ 52 * 2 powi exponent53 x = (2::rat) powi (exponent53 x + 52)"
    by (simp add: power_int_add)
  also have "\<dots> = 2 powi ilog2 \<bar>x\<bar>"
    by (simp add: e)
  also have "\<dots> \<le> \<bar>x\<bar>"
    using assms(1) by (simp add: ilog2_bounds)
  finally show ?thesis .
qed

lemma round53_grid:
  assumes "x \<noteq> 0"
  shows "\<bar>x - round53 x\<bar> \<le> \<bar>x - of_int j * 2 powi exponent53 x\<bar>"
proof -
  let ?g = "(2::rat) powi exponent53 x"
  have g: "0 < ?g" by (simp add: zero_less_power_int)
  have "\<bar>x / ?g - of_int (round_even (x / ?g))\<bar> \<le> \<bar>x / ?g - of_int j\<bar>"
    by (rule round_even_nearest)
  then have "\<bar>x / ?g - of_int (round_even (x / ?g))\<bar> * ?g \<le> \<bar>x / ?g - of_int j\<bar> * ?g"
    using g by (simp add: mult_right_mono)
  moreover have "\<bar>x / ?g - y\<bar> * ?g = \<bar>x - y * ?g\<bar>" for y
  proof -
    have "\<bar>x / ?g - y\<bar> * ?g = \<bar>x / ?g - y\<bar> * \<bar>?g\<bar>" using g by simp
    also have "\<dots> = \<bar>(x / ?g - y) * ?g\<bar>" by (simp add: abs_mult)
    also have "(x / ?g - y) * ?g = x - y * ?g" using g by (simp add: field_simps)
    finally show ?thesis .
  qed
  ultimately show ?thesis
    using assms by (simp add: round53_def)
qed

lemma representable53_int:
  assumes "\<bar>k\<bar> \<le> 2 ^ 53"
  shows "representable53 (of_int k)"
proof -
  have "\<bar>k\<bar> \<le> 2 ^ 53 \<and> (- 1074 :: int) \<le> 0 \<and> (of_int k :: rat) = of_int k * 2 powi 0"
    using assms by simp
  then show ?thesis unfolding representable53_def by blast
qed

lemma round53_representable: "representable53 (round53 x)"
proof (cases "x = 0")
  case True
  have "representable53 (of_int 0)"
    by (rule representable53_int) simp
  then show ?thesis
    using True by (simp add: round53_def)
next
  case False
  let ?g = "(2::rat) powi exponent53 x"
  have g: "0 < ?g" by (simp add: zero_less_power_int)
  have "\<bar>x / ?g\<bar> = \<bar>x\<bar> / ?g" using g by simp
  also have "\<dots> \<le> 2 ^ 53"
    using exponent53_upper [OF False] g by (simp add: field_simps)
  finally have "\<bar>x / ?g\<bar> \<le> of_int (2 ^ 53)" by simp
  then have "\<bar>round_even (x / ?g)\<bar> \<le> 2 ^ 53"
    by (rule round_even_bound)
  then show ?thesis
    unfolding representable53_def round53_def using False exponent53_lower [of x] by auto
qed

lemma round53_nearest:
  assumes "representable53 d"
  shows "\<bar>x - round53 x\<bar> \<le> \<bar>x - d\<bar>"
proof (cases "x = 0")
  case True
  then show ?thesis by (simp add: round53_def)
next
  case False
  let ?e = "exponent53 x"
  let ?g = "(2::rat) powi ?e"
  have g: "0 < ?g" by (simp add: zero_less_power_int)
  from assms obtain m e where m: "\<bar>m\<bar> \<le> 2 ^ 53" and e: "- 1074 \<le> e"
    and d: "d = of_int m * 2 powi e"
    unfolding representable53_def by blast
  show ?thesis
  proof (cases "?e \<le> e")
    case True
    have "(2::rat) powi e = 2 powi ((e - ?e) + ?e)" by simp
    also have "\<dots> = 2 powi (e - ?e) * ?g"
      by (rule power_int_add) simp
    also have "(2::rat) powi (e - ?e) = of_int (2 ^ nat (e - ?e))"
      using True by (simp add: power_int_def)
    finally have "d = of_int (m * 2 ^ nat (e - ?e)) * ?g"
      unfolding d by simp
    then show ?thesis
      using round53_grid [OF False, of "m * 2 ^ nat (e - ?e)"] by (simp only:)
  next
    case lower: False
    then have ne: "?e \<noteq> - 1074" using e by simp
    have big: "2 ^ 52 * ?g \<le> \<bar>x\<bar>"
      by (rule exponent53_normal [OF False ne])
    have "(2::rat) powi e \<le> 2 powi (?e - 1)"
      using lower by (intro power_int_increasing) simp_all
    also have "\<dots> = ?g / 2"
      by (simp add: power_int_diff)
    finally have pe: "(2::rat) powi e \<le> ?g / 2" .
    have "\<bar>d\<bar> = of_int \<bar>m\<bar> * 2 powi e"
      unfolding d by (simp add: abs_mult)
    also have "\<dots> \<le> of_int (2 ^ 53) * 2 powi e"
      using m by (intro mult_right_mono) (simp_all only: of_int_le_iff, simp)
    also have "\<dots> \<le> of_int (2 ^ 53) * (?g / 2)"
      using pe by (intro mult_left_mono) simp_all
    also have "\<dots> = 2 ^ 52 * ?g" by simp
    finally have small: "\<bar>d\<bar> \<le> 2 ^ 52 * ?g" .
    have up: "\<bar>x - round53 x\<bar> \<le> \<bar>x - of_int (2 ^ 52) * ?g\<bar>"
      and dn: "\<bar>x - round53 x\<bar> \<le> \<bar>x - of_int (- (2 ^ 52)) * ?g\<bar>"
      by (rule round53_grid [OF False])+
    show ?thesis
    proof (cases "0 < x")
      case True
      with big small up show ?thesis by (simp add: abs_if split: if_splits) 
    next
      case neg: False
      with False big small dn show ?thesis by (simp add: abs_if split: if_splits)
    qed
  qed
qed

text \<open>
  Rounding to nearest is monotone, and exact on representable numbers.
\<close>

lemma round53_mono:
  assumes "x \<le> y"
  shows "round53 x \<le> round53 y"
proof (rule ccontr)
  assume "\<not> round53 x \<le> round53 y"
  then have lt: "round53 y < round53 x" by simp
  have "\<bar>x - round53 x\<bar> \<le> \<bar>x - round53 y\<bar>" and "\<bar>y - round53 y\<bar> \<le> \<bar>y - round53 x\<bar>"
    by (simp_all add: round53_nearest round53_representable)
  with lt assms have "x = y" by arith
  with lt show False by simp
qed

lemma round53_exact:
  assumes "representable53 d"
  shows "round53 d = d"
  using round53_nearest [OF assms, of d] by simp

lemma round53_zero: "round53 0 = 0"
  by (simp add: round53_def)

lemma round53_nonneg: "0 \<le> x \<Longrightarrow> 0 \<le> round53 x"
  using round53_mono [of 0 x] by (simp add: round53_zero)

subsection \<open>Doubles, products and comparisons\<close>

lemma to_double_zero: "to_double 0 = Finite 0"
  by (simp add: to_double_def round53_zero)

lemma int_to_double_cases:
  "int_to_double n = PosInf \<or> (\<exists>m. 0 \<le> m \<and> int_to_double n = Finite m)"
  using round53_nonneg [of "of_nat n"]
  by (auto simp: int_to_double_def to_double_def Let_def)





lemma to_double_exact:
  assumes "representable53 x" and "\<bar>x\<bar> < 2 ^ 1024"
  shows "to_double x = Finite x"
  using assms(2) by (simp add: to_double_def round53_exact [OF assms(1)] Let_def abs_if split: if_splits)

lemma int_to_double_exact:
  assumes "n \<le> 2 ^ 53"
  shows "int_to_double n = Finite (of_nat n)"
proof -
  have "\<bar>int n\<bar> \<le> 2 ^ 53" using assms by simp
  then have "representable53 (of_int (int n))" by (rule representable53_int)
  moreover have "\<bar>of_int (int n) :: rat\<bar> < 2 ^ 1024"
  proof -
    have "(of_nat n :: rat) \<le> of_nat (2 ^ 53)" using assms by (simp only: of_nat_le_iff)
    also have "\<dots> < 2 ^ 1024" by simp
    finally show ?thesis by simp
  qed
  ultimately have "to_double (of_int (int n)) = Finite (of_int (int n))"
    by (rule to_double_exact)
  then show ?thesis by (simp add: int_to_double_def)
qed


text \<open>
  The product \<open>splits[k] * ld\<close>: it is the exact product when that is exact, a larger
  fraction gives a product that is below no fewer ranks, and a rank at or above the exact
  product is not below the double product (for a fraction that is a double and a length of
  at most \<open>2 ^ 53\<close>).
\<close>

lemma threshold_exact:
  assumes "exact_product f n"
  shows "threshold f n = Finite (f * of_nat n)"
  using assms by (simp add: exact_product_def threshold_def)



subsection \<open>The three sets after the cell, in double arithmetic\<close>

lemma split_loop_double_frame:
  "docs (split_loop_double es s) = docs s \<and> ld (split_loop_double es s) = ld s \<and>
   splits (split_loop_double es s) = splits s \<and> data (split_loop_double es s) = data s"
  by (induction es s rule: split_loop_double.induct) simp_all

lemma split_loop_double_train:
  "train_docs (split_loop_double es s) =
     train_docs s \<union> {d. \<exists>k nm. (k, nm, d) \<in> set es \<and> int_lt k (threshold (fst (splits s)) (ld s))}"
  by (induction es s rule: split_loop_double.induct) auto

lemma split_loop_double_dev:
  "dev_docs (split_loop_double es s) =
     dev_docs s \<union> {d. \<exists>k nm. (k, nm, d) \<in> set es \<and> \<not> int_lt k (threshold (fst (splits s)) (ld s))
        \<and> int_lt k (threshold (snd (splits s)) (ld s))}"
  by (induction es s rule: split_loop_double.induct) auto

lemma split_loop_double_test:
  "test_docs (split_loop_double es s) =
     test_docs s \<union> {d. \<exists>k nm. (k, nm, d) \<in> set es \<and> \<not> int_lt k (threshold (fst (splits s)) (ld s))
        \<and> \<not> int_lt k (threshold (snd (splits s)) (ld s))}"
  by (induction es s rule: split_loop_double.induct) auto

lemma split_cell_double_train:
  "train_docs (split_cell_double (f1, f2) s) =
     {sort_key name (docs s) ! k | k. k < length (docs s) \<and> int_lt k (threshold f1 (length (docs s)))}"
  by (auto simp: split_cell_double_def Let_def split_loop_double_train split_loop_double_frame
      data_sorted enumerate_data)

lemma split_cell_double_dev:
  "dev_docs (split_cell_double (f1, f2) s) =
     {sort_key name (docs s) ! k | k. k < length (docs s) \<and> \<not> int_lt k (threshold f1 (length (docs s)))
        \<and> int_lt k (threshold f2 (length (docs s)))}"
  by (auto simp: split_cell_double_def Let_def split_loop_double_dev split_loop_double_frame
      data_sorted enumerate_data)

lemma split_cell_double_test:
  "test_docs (split_cell_double (f1, f2) s) =
     {sort_key name (docs s) ! k | k. k < length (docs s) \<and> \<not> int_lt k (threshold f1 (length (docs s)))
        \<and> \<not> int_lt k (threshold f2 (length (docs s)))}"
  by (auto simp: split_cell_double_def Let_def split_loop_double_test split_loop_double_frame
      data_sorted enumerate_data)


lemma split_cell_double_cover:
  "train_docs (split_cell_double (f1, f2) s) \<union> dev_docs (split_cell_double (f1, f2) s)
     \<union> test_docs (split_cell_double (f1, f2) s) = set (docs s)"
proof -
  have "set (docs s) = {sort_key name (docs s) ! k | k. k < length (docs s)}"
    using set_conv_nth [of "sort_key name (docs s)"] by simp
  then show ?thesis
    unfolding split_cell_double_train split_cell_double_dev split_cell_double_test by blast
qed


lemma split_cell_double_member:
  assumes "distinct (docs s)" "i < length (docs s)"
  shows "(sort_key name (docs s) ! i \<in> train_docs (split_cell_double (f1, f2) s)) =
           int_lt i (threshold f1 (length (docs s)))"
    and "(sort_key name (docs s) ! i \<in> dev_docs (split_cell_double (f1, f2) s)) =
           (\<not> int_lt i (threshold f1 (length (docs s))) \<and> int_lt i (threshold f2 (length (docs s))))"
    and "(sort_key name (docs s) ! i \<in> test_docs (split_cell_double (f1, f2) s)) =
           (\<not> int_lt i (threshold f1 (length (docs s))) \<and> \<not> int_lt i (threshold f2 (length (docs s))))"
  unfolding split_cell_double_train split_cell_double_dev split_cell_double_test
  using assms by (auto simp: ranked_nth_eq)


lemma tutorial_products_exact:
  assumes "n < 2 ^ 51"
  shows "exact_product (1 / 2) n" and "exact_product (3 / 4) n"
proof -
  have n53: "n \<le> 2 ^ 53"
  proof -
    have "(2::nat) ^ 51 \<le> 2 ^ 53" by simp
    with assms show ?thesis by linarith
  qed
  have small: "\<bar>x\<bar> < 2 ^ 1024" if "\<bar>x\<bar> \<le> of_nat n" for x :: rat
  proof -
    have "(of_nat n :: rat) \<le> of_nat (2 ^ 53)" using n53 by (simp only: of_nat_le_iff)
    also have "\<dots> < 2 ^ 1024" by simp
    finally show ?thesis using that by simp
  qed
  have rep: "representable53 (of_int m * 2 powi e)" if "\<bar>m\<bar> \<le> 2 ^ 53" "- 1074 \<le> e" for m e
    using that unfolding representable53_def by blast
  have half: "to_double (1 / 2) = Finite (1 / 2)"
    using to_double_exact [OF rep [of 1 "- 1"]] by (simp add: power_int_minus)
  have quarters: "to_double (3 / 4) = Finite (3 / 4)"
    using to_double_exact [OF rep [of 3 "- 2"]] by (simp add: power_int_minus)
  have nd: "int_to_double n = Finite (of_nat n)"
    using n53 by (rule int_to_double_exact)
  have "to_double (of_int (int n) * 2 powi (- 1)) = Finite (of_int (int n) * 2 powi (- 1))"
  proof (rule to_double_exact [OF rep])
    show "\<bar>int n\<bar> \<le> 2 ^ 53" using n53 by simp
    show "\<bar>of_int (int n) * 2 powi (- 1) :: rat\<bar> < 2 ^ 1024"
      by (rule small) (simp add: power_int_minus)
  qed simp
  then have p1: "to_double (1 / 2 * of_nat n) = Finite (1 / 2 * of_nat n)"
    by (simp add: power_int_minus field_simps)
  have "to_double (of_int (int (3 * n)) * 2 powi (- 2)) = Finite (of_int (int (3 * n)) * 2 powi (- 2))"
  proof (rule to_double_exact [OF rep])
    have "3 * n < 3 * 2 ^ 51" using assms by simp
    also have "\<dots> \<le> (2::nat) ^ 53" by simp
    finally show "\<bar>int (3 * n)\<bar> \<le> 2 ^ 53" by simp
    show "\<bar>of_int (int (3 * n)) * 2 powi (- 2) :: rat\<bar> < 2 ^ 1024"
      by (rule small) (simp add: power_int_minus)
  qed simp
  then have p2: "to_double (3 / 4 * of_nat n) = Finite (3 / 4 * of_nat n)"
    by (simp add: power_int_minus field_simps)
  show "exact_product (1 / 2) n" and "exact_product (3 / 4) n"
    using half quarters nd p1 p2 by (simp_all add: exact_product_def)
qed


subsection \<open>Facts that hold in double arithmetic as well\<close>

text \<open>
  The sets after the cell in double arithmetic depend on the documents through their name
  order only. Equal fractions leave dev empty and a first fraction of 0 leaves train empty;
  with at most \<open>2 ^ 53\<close> documents, where the conversion of the length is exact, a second
  fraction of 1 leaves test empty, and the fractions 0 and 1 send every document to dev.
\<close>

lemma threshold_zero: "\<not> int_lt k (threshold 0 n)"
  using int_to_double_cases [of n]
  by (auto simp: threshold_def to_double_zero)

lemma threshold_one:
  assumes "n \<le> 2 ^ 53"
  shows "threshold 1 n = Finite (of_nat n)"
proof -
  have one: "to_double 1 = Finite 1"
  proof -
    have "representable53 (of_int 1)"
      by (rule representable53_int) simp
    then show ?thesis
      using to_double_exact [of 1] by simp
  qed
  have n: "int_to_double n = Finite (of_nat n)"
    using assms by (rule int_to_double_exact)
  then have "to_double (of_nat n) = Finite (of_nat n)"
    by (simp add: int_to_double_def)
  then show ?thesis
    by (simp add: threshold_def one n)
qed

lemma same_rank_same_split_double:
  assumes "sort_key name (docs s) = sort_key name (docs s')"
  shows "train_docs (split_cell_double (f1, f2) s) = train_docs (split_cell_double (f1, f2) s')"
    and "dev_docs (split_cell_double (f1, f2) s) = dev_docs (split_cell_double (f1, f2) s')"
    and "test_docs (split_cell_double (f1, f2) s) = test_docs (split_cell_double (f1, f2) s')"
proof -
  have "length (sort_key name (docs s)) = length (sort_key name (docs s'))"
    using assms by simp
  then have "length (docs s) = length (docs s')" by simp
  then show "train_docs (split_cell_double (f1, f2) s) = train_docs (split_cell_double (f1, f2) s')"
    and "dev_docs (split_cell_double (f1, f2) s) = dev_docs (split_cell_double (f1, f2) s')"
    and "test_docs (split_cell_double (f1, f2) s) = test_docs (split_cell_double (f1, f2) s')"
    unfolding split_cell_double_train split_cell_double_dev split_cell_double_test
    using assms by simp_all
qed

lemma edge_cases_double:
  "dev_docs (split_cell_double (f, f) s) = {}"
  "train_docs (split_cell_double (0, f2) s) = {}"
  "length (docs s) \<le> 2 ^ 53 \<Longrightarrow> test_docs (split_cell_double (f1, 1) s) = {}"
  unfolding split_cell_double_train split_cell_double_dev split_cell_double_test
  by (auto simp: threshold_zero threshold_one)

lemma full_range_all_dev_double:
  assumes "length (docs s) \<le> 2 ^ 53"
  shows "train_docs (split_cell_double (0, 1) s) = {}"
    and "dev_docs (split_cell_double (0, 1) s) = set (docs s)"
    and "test_docs (split_cell_double (0, 1) s) = {}"
proof -
  show t: "train_docs (split_cell_double (0, 1) s) = {}"
    by (rule edge_cases_double(2))
  show e: "test_docs (split_cell_double (0, 1) s) = {}"
    using assms by (rule edge_cases_double(3))
  show "dev_docs (split_cell_double (0, 1) s) = set (docs s)"
    using split_cell_double_cover [of 0 1 s] t e by simp
qed

section \<open>The claims\<close>

subsection \<open>Partition\<close>

text \<open>
  Claim C1. For documents with pairwise different names and fractions
  \<open>0 \<le> f1 \<le> f2 \<le> 1\<close>, the train, dev and test sets after the cell are pairwise
  disjoint and their union is the set of the input documents: every document is in exactly
  one of them.
\<close>

theorem partition_strict:
  assumes "distinct (map name (docs s))" and "0 \<le> f1" and "f1 \<le> f2" and "f2 \<le> 1"
  shows "train_docs (split_cell (f1, f2) s) \<inter> dev_docs (split_cell (f1, f2) s) = {} \<and>
         train_docs (split_cell (f1, f2) s) \<inter> test_docs (split_cell (f1, f2) s) = {} \<and>
         dev_docs (split_cell (f1, f2) s) \<inter> test_docs (split_cell (f1, f2) s) = {} \<and>
         train_docs (split_cell (f1, f2) s) \<union> dev_docs (split_cell (f1, f2) s)
           \<union> test_docs (split_cell (f1, f2) s) = set (docs s)"
proof -
  have "distinct (docs s)"
    using assms(1) by (rule names_distinct)
  then show ?thesis
    by (simp add: split_cell_disjoint split_cell_cover)
qed

text \<open>
  The theorem at three documents listed out of name order, with fractions one third and
  two thirds.
\<close>

theorem partition_strict_witness:
  "distinct (map name (docs (loaded [\<lparr>name = ''q2''\<rparr>, \<lparr>name = ''q1''\<rparr>, \<lparr>name = ''q3''\<rparr>]))) \<and>
   (0::rat) \<le> 1 / 3 \<and> (1 / 3 :: rat) \<le> 2 / 3 \<and> (2 / 3 :: rat) \<le> 1 \<and>
   train_docs (split_cell (1 / 3, 2 / 3) (loaded [\<lparr>name = ''q2''\<rparr>, \<lparr>name = ''q1''\<rparr>, \<lparr>name = ''q3''\<rparr>]))
     \<inter> dev_docs (split_cell (1 / 3, 2 / 3) (loaded [\<lparr>name = ''q2''\<rparr>, \<lparr>name = ''q1''\<rparr>, \<lparr>name = ''q3''\<rparr>])) = {} \<and>
   train_docs (split_cell (1 / 3, 2 / 3) (loaded [\<lparr>name = ''q2''\<rparr>, \<lparr>name = ''q1''\<rparr>, \<lparr>name = ''q3''\<rparr>]))
     \<union> dev_docs (split_cell (1 / 3, 2 / 3) (loaded [\<lparr>name = ''q2''\<rparr>, \<lparr>name = ''q1''\<rparr>, \<lparr>name = ''q3''\<rparr>]))
     \<union> test_docs (split_cell (1 / 3, 2 / 3) (loaded [\<lparr>name = ''q2''\<rparr>, \<lparr>name = ''q1''\<rparr>, \<lparr>name = ''q3''\<rparr>]))
     = {\<lparr>name = ''q1''\<rparr>, \<lparr>name = ''q2''\<rparr>, \<lparr>name = ''q3''\<rparr>}"
proof -
  have h: "distinct (map name (docs (loaded [\<lparr>name = ''q2''\<rparr>, \<lparr>name = ''q1''\<rparr>, \<lparr>name = ''q3''\<rparr>])))"
    by (simp add: loaded_def)
  have r: "(0::rat) \<le> 1 / 3" "(1 / 3 :: rat) \<le> 2 / 3" "(2 / 3 :: rat) \<le> 1"
    by simp_all
  have "set (docs (loaded [\<lparr>name = ''q2''\<rparr>, \<lparr>name = ''q1''\<rparr>, \<lparr>name = ''q3''\<rparr>]))
     = {\<lparr>name = ''q1''\<rparr>, \<lparr>name = ''q2''\<rparr>, \<lparr>name = ''q3''\<rparr>}"
    by (auto simp: loaded_def)
  then show ?thesis
    using h r partition_strict [OF h r] by simp
qed

subsection \<open>The rank rule\<close>

text \<open>
  The rule with the products read as numbers fails on the cell. With the doubles \<open>0.8\<close>
  and \<open>0.9\<close> (given by their values) and five documents, rank 4 is below the exact
  product \<open>f1 * 5\<close>, which is a little above 4, and the document at rank 4 is not in
  train but in dev, since \<open>0.8 * 5\<close> is \<open>4.0\<close> in double arithmetic. With the literals
  \<open>0.28\<close> and \<open>0.56\<close> and 25 documents, rank 7 is not below \<open>0.28 * 25 = 7\<close> and
  is below \<open>0.56 * 25 = 14\<close>, and the document at rank 7 is not in dev but in train,
  since the double product is \<open>7.000000000000001\<close>.
\<close>

theorem rank_rule_counterexample:
  "(0::rat) \<le> 3602879701896397 / 4503599627370496 \<and>
   (3602879701896397 / 4503599627370496 :: rat) \<le> 8106479329266893 / 9007199254740992 \<and>
   (8106479329266893 / 9007199254740992 :: rat) \<le> 1 \<and>
   to_double (3602879701896397 / 4503599627370496) = Finite (3602879701896397 / 4503599627370496) \<and>
   to_double (8106479329266893 / 9007199254740992) = Finite (8106479329266893 / 9007199254740992) \<and>
   sort_key name (docs (loaded [\<lparr>name = ''a''\<rparr>, \<lparr>name = ''b''\<rparr>, \<lparr>name = ''c''\<rparr>, \<lparr>name = ''d''\<rparr>, \<lparr>name = ''e''\<rparr>])) ! 4 = \<lparr>name = ''e''\<rparr> \<and>
   (of_nat 4 :: rat) < 3602879701896397 / 4503599627370496 * of_nat (length (docs (loaded [\<lparr>name = ''a''\<rparr>, \<lparr>name = ''b''\<rparr>, \<lparr>name = ''c''\<rparr>, \<lparr>name = ''d''\<rparr>, \<lparr>name = ''e''\<rparr>]))) \<and>
   \<lparr>name = ''e''\<rparr> \<notin> train_docs (split_cell_double (3602879701896397 / 4503599627370496, 8106479329266893 / 9007199254740992) (loaded [\<lparr>name = ''a''\<rparr>, \<lparr>name = ''b''\<rparr>, \<lparr>name = ''c''\<rparr>, \<lparr>name = ''d''\<rparr>, \<lparr>name = ''e''\<rparr>])) \<and>
   \<lparr>name = ''e''\<rparr> \<in> dev_docs (split_cell_double (3602879701896397 / 4503599627370496, 8106479329266893 / 9007199254740992) (loaded [\<lparr>name = ''a''\<rparr>, \<lparr>name = ''b''\<rparr>, \<lparr>name = ''c''\<rparr>, \<lparr>name = ''d''\<rparr>, \<lparr>name = ''e''\<rparr>])) \<and>
   (0::rat) \<le> 7 / 25 \<and> (7 / 25 :: rat) \<le> 14 / 25 \<and> (14 / 25 :: rat) \<le> 1 \<and>
   sort_key name (docs (loaded [\<lparr>name = ''d00''\<rparr>, \<lparr>name = ''d01''\<rparr>, \<lparr>name = ''d02''\<rparr>, \<lparr>name = ''d03''\<rparr>, \<lparr>name = ''d04''\<rparr>, \<lparr>name = ''d05''\<rparr>, \<lparr>name = ''d06''\<rparr>, \<lparr>name = ''d07''\<rparr>, \<lparr>name = ''d08''\<rparr>, \<lparr>name = ''d09''\<rparr>, \<lparr>name = ''d10''\<rparr>, \<lparr>name = ''d11''\<rparr>, \<lparr>name = ''d12''\<rparr>, \<lparr>name = ''d13''\<rparr>, \<lparr>name = ''d14''\<rparr>, \<lparr>name = ''d15''\<rparr>, \<lparr>name = ''d16''\<rparr>, \<lparr>name = ''d17''\<rparr>, \<lparr>name = ''d18''\<rparr>, \<lparr>name = ''d19''\<rparr>, \<lparr>name = ''d20''\<rparr>, \<lparr>name = ''d21''\<rparr>, \<lparr>name = ''d22''\<rparr>, \<lparr>name = ''d23''\<rparr>, \<lparr>name = ''d24''\<rparr>])) ! 7 = \<lparr>name = ''d07''\<rparr> \<and>
   (7 / 25 :: rat) * of_nat (length (docs (loaded [\<lparr>name = ''d00''\<rparr>, \<lparr>name = ''d01''\<rparr>, \<lparr>name = ''d02''\<rparr>, \<lparr>name = ''d03''\<rparr>, \<lparr>name = ''d04''\<rparr>, \<lparr>name = ''d05''\<rparr>, \<lparr>name = ''d06''\<rparr>, \<lparr>name = ''d07''\<rparr>, \<lparr>name = ''d08''\<rparr>, \<lparr>name = ''d09''\<rparr>, \<lparr>name = ''d10''\<rparr>, \<lparr>name = ''d11''\<rparr>, \<lparr>name = ''d12''\<rparr>, \<lparr>name = ''d13''\<rparr>, \<lparr>name = ''d14''\<rparr>, \<lparr>name = ''d15''\<rparr>, \<lparr>name = ''d16''\<rparr>, \<lparr>name = ''d17''\<rparr>, \<lparr>name = ''d18''\<rparr>, \<lparr>name = ''d19''\<rparr>, \<lparr>name = ''d20''\<rparr>, \<lparr>name = ''d21''\<rparr>, \<lparr>name = ''d22''\<rparr>, \<lparr>name = ''d23''\<rparr>, \<lparr>name = ''d24''\<rparr>]))) \<le> of_nat 7 \<and>
   (of_nat 7 :: rat) < 14 / 25 * of_nat (length (docs (loaded [\<lparr>name = ''d00''\<rparr>, \<lparr>name = ''d01''\<rparr>, \<lparr>name = ''d02''\<rparr>, \<lparr>name = ''d03''\<rparr>, \<lparr>name = ''d04''\<rparr>, \<lparr>name = ''d05''\<rparr>, \<lparr>name = ''d06''\<rparr>, \<lparr>name = ''d07''\<rparr>, \<lparr>name = ''d08''\<rparr>, \<lparr>name = ''d09''\<rparr>, \<lparr>name = ''d10''\<rparr>, \<lparr>name = ''d11''\<rparr>, \<lparr>name = ''d12''\<rparr>, \<lparr>name = ''d13''\<rparr>, \<lparr>name = ''d14''\<rparr>, \<lparr>name = ''d15''\<rparr>, \<lparr>name = ''d16''\<rparr>, \<lparr>name = ''d17''\<rparr>, \<lparr>name = ''d18''\<rparr>, \<lparr>name = ''d19''\<rparr>, \<lparr>name = ''d20''\<rparr>, \<lparr>name = ''d21''\<rparr>, \<lparr>name = ''d22''\<rparr>, \<lparr>name = ''d23''\<rparr>, \<lparr>name = ''d24''\<rparr>]))) \<and>
   \<lparr>name = ''d07''\<rparr> \<in> train_docs (split_cell_double (7 / 25, 14 / 25) (loaded [\<lparr>name = ''d00''\<rparr>, \<lparr>name = ''d01''\<rparr>, \<lparr>name = ''d02''\<rparr>, \<lparr>name = ''d03''\<rparr>, \<lparr>name = ''d04''\<rparr>, \<lparr>name = ''d05''\<rparr>, \<lparr>name = ''d06''\<rparr>, \<lparr>name = ''d07''\<rparr>, \<lparr>name = ''d08''\<rparr>, \<lparr>name = ''d09''\<rparr>, \<lparr>name = ''d10''\<rparr>, \<lparr>name = ''d11''\<rparr>, \<lparr>name = ''d12''\<rparr>, \<lparr>name = ''d13''\<rparr>, \<lparr>name = ''d14''\<rparr>, \<lparr>name = ''d15''\<rparr>, \<lparr>name = ''d16''\<rparr>, \<lparr>name = ''d17''\<rparr>, \<lparr>name = ''d18''\<rparr>, \<lparr>name = ''d19''\<rparr>, \<lparr>name = ''d20''\<rparr>, \<lparr>name = ''d21''\<rparr>, \<lparr>name = ''d22''\<rparr>, \<lparr>name = ''d23''\<rparr>, \<lparr>name = ''d24''\<rparr>])) \<and>
   \<lparr>name = ''d07''\<rparr> \<notin> dev_docs (split_cell_double (7 / 25, 14 / 25) (loaded [\<lparr>name = ''d00''\<rparr>, \<lparr>name = ''d01''\<rparr>, \<lparr>name = ''d02''\<rparr>, \<lparr>name = ''d03''\<rparr>, \<lparr>name = ''d04''\<rparr>, \<lparr>name = ''d05''\<rparr>, \<lparr>name = ''d06''\<rparr>, \<lparr>name = ''d07''\<rparr>, \<lparr>name = ''d08''\<rparr>, \<lparr>name = ''d09''\<rparr>, \<lparr>name = ''d10''\<rparr>, \<lparr>name = ''d11''\<rparr>, \<lparr>name = ''d12''\<rparr>, \<lparr>name = ''d13''\<rparr>, \<lparr>name = ''d14''\<rparr>, \<lparr>name = ''d15''\<rparr>, \<lparr>name = ''d16''\<rparr>, \<lparr>name = ''d17''\<rparr>, \<lparr>name = ''d18''\<rparr>, \<lparr>name = ''d19''\<rparr>, \<lparr>name = ''d20''\<rparr>, \<lparr>name = ''d21''\<rparr>, \<lparr>name = ''d22''\<rparr>, \<lparr>name = ''d23''\<rparr>, \<lparr>name = ''d24''\<rparr>]))"
proof -
  let ?s = "loaded [\<lparr>name = ''a''\<rparr>, \<lparr>name = ''b''\<rparr>, \<lparr>name = ''c''\<rparr>, \<lparr>name = ''d''\<rparr>, \<lparr>name = ''e''\<rparr>]"
  let ?t = "loaded [\<lparr>name = ''d00''\<rparr>, \<lparr>name = ''d01''\<rparr>, \<lparr>name = ''d02''\<rparr>, \<lparr>name = ''d03''\<rparr>, \<lparr>name = ''d04''\<rparr>, \<lparr>name = ''d05''\<rparr>, \<lparr>name = ''d06''\<rparr>, \<lparr>name = ''d07''\<rparr>, \<lparr>name = ''d08''\<rparr>, \<lparr>name = ''d09''\<rparr>, \<lparr>name = ''d10''\<rparr>, \<lparr>name = ''d11''\<rparr>, \<lparr>name = ''d12''\<rparr>, \<lparr>name = ''d13''\<rparr>, \<lparr>name = ''d14''\<rparr>, \<lparr>name = ''d15''\<rparr>, \<lparr>name = ''d16''\<rparr>, \<lparr>name = ''d17''\<rparr>, \<lparr>name = ''d18''\<rparr>, \<lparr>name = ''d19''\<rparr>, \<lparr>name = ''d20''\<rparr>, \<lparr>name = ''d21''\<rparr>, \<lparr>name = ''d22''\<rparr>, \<lparr>name = ''d23''\<rparr>, \<lparr>name = ''d24''\<rparr>]"
  have v: "to_double (3602879701896397 / 4503599627370496) = Finite (3602879701896397 / 4503599627370496)"
    "to_double (8106479329266893 / 9007199254740992) = Finite (8106479329266893 / 9007199254740992)"
    by code_simp+
  have t1: "threshold (3602879701896397 / 4503599627370496) 5 = Finite 4"
    by code_simp
  have t2: "threshold (8106479329266893 / 9007199254740992) 5 = Finite (9 / 2)"
    by code_simp
  have t3: "threshold (7 / 25) 25 = Finite (7881299347898369 / 1125899906842624)"
    by code_simp
  have ds: "distinct (docs ?s)" and ls: "length (docs ?s) = 5"
    and rs: "sort_key name (docs ?s) ! 4 = \<lparr>name = ''e''\<rparr>"
    by (simp_all add: loaded_docs)
  have dt: "distinct (docs ?t)" and lt: "length (docs ?t) = 25"
    and rt: "sort_key name (docs ?t) ! 7 = \<lparr>name = ''d07''\<rparr>"
    by (simp_all add: loaded_docs)
  have e: "\<lparr>name = ''e''\<rparr> \<notin> train_docs (split_cell_double (3602879701896397 / 4503599627370496, 8106479329266893 / 9007199254740992) ?s)"
    "\<lparr>name = ''e''\<rparr> \<in> dev_docs (split_cell_double (3602879701896397 / 4503599627370496, 8106479329266893 / 9007199254740992) ?s)"
    using split_cell_double_member(1,2) [OF ds, of 4 "3602879701896397 / 4503599627370496" "8106479329266893 / 9007199254740992"]
    unfolding rs ls t1 t2 by simp_all
  have d: "\<lparr>name = ''d07''\<rparr> \<in> train_docs (split_cell_double (7 / 25, 14 / 25) ?t)"
    "\<lparr>name = ''d07''\<rparr> \<notin> dev_docs (split_cell_double (7 / 25, 14 / 25) ?t)"
    using split_cell_double_member(1,2) [OF dt, of 7 "7 / 25" "14 / 25"]
    unfolding rt lt t3 by simp_all
  show ?thesis
    unfolding ls lt using v rs rt e d by simp
qed

text \<open>
  Claim C2, as the code has it. For documents with pairwise different names and fractions
  \<open>0 \<le> f1 \<le> f2 \<le> 1\<close>, let \<open>n\<close> be the number of documents and \<open>t1\<close>, \<open>t2\<close> the
  double products \<open>splits[0] * n\<close> and \<open>splits[1] * n\<close>. The list
  \<open>sort_key name (docs s)\<close> holds the same documents in ascending name order, and the
  document at its zero-based rank \<open>i\<close> is in train exactly when \<open>i < t1\<close>, in dev
  exactly when \<open>i < t1\<close> is false and \<open>i < t2\<close>, and in test exactly otherwise. Where
  both products are exact, these are the conditions \<open>i < f1 * n\<close>,
  \<open>f1 * n \<le> i < f2 * n\<close> and otherwise.
\<close>

theorem rank_rule_double:
  assumes "distinct (map name (docs s))" and "0 \<le> f1" and "f1 \<le> f2" and "f2 \<le> 1"
    and "i < length (docs s)"
  shows "sorted (map name (sort_key name (docs s))) \<and>
         set (sort_key name (docs s)) = set (docs s) \<and>
         (sort_key name (docs s) ! i \<in> train_docs (split_cell_double (f1, f2) s)) =
           int_lt i (threshold f1 (length (docs s))) \<and>
         (sort_key name (docs s) ! i \<in> dev_docs (split_cell_double (f1, f2) s)) =
           (\<not> int_lt i (threshold f1 (length (docs s))) \<and>
            int_lt i (threshold f2 (length (docs s)))) \<and>
         (sort_key name (docs s) ! i \<in> test_docs (split_cell_double (f1, f2) s)) =
           (\<not> int_lt i (threshold f1 (length (docs s))) \<and>
            \<not> (\<not> int_lt i (threshold f1 (length (docs s))) \<and>
               int_lt i (threshold f2 (length (docs s))))) \<and>
         (exact_product f1 (length (docs s)) \<and> exact_product f2 (length (docs s)) \<longrightarrow>
           (sort_key name (docs s) ! i \<in> train_docs (split_cell_double (f1, f2) s)) =
             (of_nat i < f1 * of_nat (length (docs s))) \<and>
           (sort_key name (docs s) ! i \<in> dev_docs (split_cell_double (f1, f2) s)) =
             (f1 * of_nat (length (docs s)) \<le> of_nat i \<and>
              of_nat i < f2 * of_nat (length (docs s))) \<and>
           (sort_key name (docs s) ! i \<in> test_docs (split_cell_double (f1, f2) s)) =
             (\<not> of_nat i < f1 * of_nat (length (docs s)) \<and>
              \<not> (f1 * of_nat (length (docs s)) \<le> of_nat i \<and>
                 of_nat i < f2 * of_nat (length (docs s)))))"
proof -
  have d: "distinct (docs s)"
    using assms(1) by (rule names_distinct)
  note m = split_cell_double_member [OF d assms(5), of f1 f2]
  have rounded: "(sort_key name (docs s) ! i \<in> test_docs (split_cell_double (f1, f2) s)) =
           (\<not> int_lt i (threshold f1 (length (docs s))) \<and>
            \<not> (\<not> int_lt i (threshold f1 (length (docs s))) \<and>
               int_lt i (threshold f2 (length (docs s)))))"
    unfolding m by blast
  have exact: "(sort_key name (docs s) ! i \<in> train_docs (split_cell_double (f1, f2) s)) =
             (of_nat i < f1 * of_nat (length (docs s))) \<and>
           (sort_key name (docs s) ! i \<in> dev_docs (split_cell_double (f1, f2) s)) =
             (f1 * of_nat (length (docs s)) \<le> of_nat i \<and>
              of_nat i < f2 * of_nat (length (docs s))) \<and>
           (sort_key name (docs s) ! i \<in> test_docs (split_cell_double (f1, f2) s)) =
             (\<not> of_nat i < f1 * of_nat (length (docs s)) \<and>
              \<not> (f1 * of_nat (length (docs s)) \<le> of_nat i \<and>
                 of_nat i < f2 * of_nat (length (docs s))))"
    if "exact_product f1 (length (docs s))" and "exact_product f2 (length (docs s))"
    unfolding m threshold_exact [OF that(1)] threshold_exact [OF that(2)]
    by (auto simp: not_less)
  have "sorted (map name (sort_key name (docs s)))"
    and "set (sort_key name (docs s)) = set (docs s)"
    by simp_all
  then show ?thesis
    using m(1,2) rounded exact by blast
qed

text \<open>
  The theorem at four documents and rank 2, with the notebook's fractions, whose products
  with 4 are exact: the names in order are \<open>a\<close>, \<open>ab\<close>, \<open>b\<close>, \<open>bc\<close>, and the
  document \<open>b\<close> is in dev only.
\<close>

theorem rank_rule_double_witness:
  "distinct (map name (docs (loaded [\<lparr>name = ''bc''\<rparr>, \<lparr>name = ''b''\<rparr>, \<lparr>name = ''a''\<rparr>, \<lparr>name = ''ab''\<rparr>]))) \<and>
   (0::rat) \<le> 1 / 2 \<and> (1 / 2 :: rat) \<le> 3 / 4 \<and> (3 / 4 :: rat) \<le> 1 \<and>
   (2::nat) < length (docs (loaded [\<lparr>name = ''bc''\<rparr>, \<lparr>name = ''b''\<rparr>, \<lparr>name = ''a''\<rparr>, \<lparr>name = ''ab''\<rparr>])) \<and>
   exact_product (1 / 2) (length (docs (loaded [\<lparr>name = ''bc''\<rparr>, \<lparr>name = ''b''\<rparr>, \<lparr>name = ''a''\<rparr>, \<lparr>name = ''ab''\<rparr>]))) \<and>
   exact_product (3 / 4) (length (docs (loaded [\<lparr>name = ''bc''\<rparr>, \<lparr>name = ''b''\<rparr>, \<lparr>name = ''a''\<rparr>, \<lparr>name = ''ab''\<rparr>]))) \<and>
   sort_key name (docs (loaded [\<lparr>name = ''bc''\<rparr>, \<lparr>name = ''b''\<rparr>, \<lparr>name = ''a''\<rparr>, \<lparr>name = ''ab''\<rparr>])) ! 2 = \<lparr>name = ''b''\<rparr> \<and>
   \<lparr>name = ''b''\<rparr> \<notin> train_docs (split_cell_double (1 / 2, 3 / 4) (loaded [\<lparr>name = ''bc''\<rparr>, \<lparr>name = ''b''\<rparr>, \<lparr>name = ''a''\<rparr>, \<lparr>name = ''ab''\<rparr>])) \<and>
   \<lparr>name = ''b''\<rparr> \<in> dev_docs (split_cell_double (1 / 2, 3 / 4) (loaded [\<lparr>name = ''bc''\<rparr>, \<lparr>name = ''b''\<rparr>, \<lparr>name = ''a''\<rparr>, \<lparr>name = ''ab''\<rparr>])) \<and>
   \<lparr>name = ''b''\<rparr> \<notin> test_docs (split_cell_double (1 / 2, 3 / 4) (loaded [\<lparr>name = ''bc''\<rparr>, \<lparr>name = ''b''\<rparr>, \<lparr>name = ''a''\<rparr>, \<lparr>name = ''ab''\<rparr>]))"
proof -
  let ?s = "loaded [\<lparr>name = ''bc''\<rparr>, \<lparr>name = ''b''\<rparr>, \<lparr>name = ''a''\<rparr>, \<lparr>name = ''ab''\<rparr>]"
  have h: "distinct (map name (docs ?s))"
    by (simp add: loaded_docs)
  have r: "(0::rat) \<le> 1 / 2" "(1 / 2 :: rat) \<le> 3 / 4" "(3 / 4 :: rat) \<le> 1"
    by simp_all
  have l: "(2::nat) < length (docs ?s)"
    by (simp add: loaded_docs)
  have n: "length (docs ?s) = 4"
    by (simp add: loaded_docs)
  have k: "sort_key name (docs ?s) ! 2 = \<lparr>name = ''b''\<rparr>"
    by (simp add: loaded_docs)
  have x: "exact_product (1 / 2) (length (docs ?s))" "exact_product (3 / 4) (length (docs ?s))"
    unfolding n by (rule tutorial_products_exact; simp)+
  from rank_rule_double [OF h r l] x
  have "(sort_key name (docs ?s) ! 2 \<in> train_docs (split_cell_double (1 / 2, 3 / 4) ?s)) =
          (of_nat 2 < (1 / 2 :: rat) * of_nat (length (docs ?s))) \<and>
        (sort_key name (docs ?s) ! 2 \<in> dev_docs (split_cell_double (1 / 2, 3 / 4) ?s)) =
          ((1 / 2 :: rat) * of_nat (length (docs ?s)) \<le> of_nat 2 \<and>
           of_nat 2 < (3 / 4 :: rat) * of_nat (length (docs ?s))) \<and>
        (sort_key name (docs ?s) ! 2 \<in> test_docs (split_cell_double (1 / 2, 3 / 4) ?s)) =
          (\<not> of_nat 2 < (1 / 2 :: rat) * of_nat (length (docs ?s)) \<and>
           \<not> ((1 / 2 :: rat) * of_nat (length (docs ?s)) \<le> of_nat 2 \<and>
              of_nat 2 < (3 / 4 :: rat) * of_nat (length (docs ?s))))"
    by blast
  then have "\<lparr>name = ''b''\<rparr> \<notin> train_docs (split_cell_double (1 / 2, 3 / 4) ?s) \<and>
     \<lparr>name = ''b''\<rparr> \<in> dev_docs (split_cell_double (1 / 2, 3 / 4) ?s) \<and>
     \<lparr>name = ''b''\<rparr> \<notin> test_docs (split_cell_double (1 / 2, 3 / 4) ?s)"
    unfolding k n by simp
  then show ?thesis
    using h r l k x by blast
qed

subsection \<open>Validation of the fractions\<close>

text \<open>
  The cell run with \<open>f1 = 0.8\<close> and \<open>f2 = 0.2\<close> on five documents raises nothing: it
  returns the state in which the first four documents in name order are in train, none is
  in dev and the last is in test.
\<close>

theorem unordered_fractions_counterexample:
  "(1 / 5 :: rat) < 4 / 5 \<and>
   partition_docs (4 / 5) (1 / 5)
      (loaded [\<lparr>name = ''a''\<rparr>, \<lparr>name = ''b''\<rparr>, \<lparr>name = ''c''\<rparr>, \<lparr>name = ''d''\<rparr>, \<lparr>name = ''e''\<rparr>])
     \<noteq> Inl InvalidArgument \<and>
   partition_docs (4 / 5) (1 / 5)
      (loaded [\<lparr>name = ''a''\<rparr>, \<lparr>name = ''b''\<rparr>, \<lparr>name = ''c''\<rparr>, \<lparr>name = ''d''\<rparr>, \<lparr>name = ''e''\<rparr>])
     = Inr \<lparr>docs = [\<lparr>name = ''a''\<rparr>, \<lparr>name = ''b''\<rparr>, \<lparr>name = ''c''\<rparr>, \<lparr>name = ''d''\<rparr>, \<lparr>name = ''e''\<rparr>],
          ld = 5,
          train_docs = {\<lparr>name = ''a''\<rparr>, \<lparr>name = ''b''\<rparr>, \<lparr>name = ''c''\<rparr>, \<lparr>name = ''d''\<rparr>},
          dev_docs = {},
          test_docs = {\<lparr>name = ''e''\<rparr>},
          splits = (4 / 5, 1 / 5),
          data = [(''a'', \<lparr>name = ''a''\<rparr>), (''b'', \<lparr>name = ''b''\<rparr>), (''c'', \<lparr>name = ''c''\<rparr>),
                  (''d'', \<lparr>name = ''d''\<rparr>), (''e'', \<lparr>name = ''e''\<rparr>)]\<rparr>"
  by (simp add: partition_docs_def split_cell_def loaded_def insert_commute)

text \<open>
  Claim C3, as the code has it. The cell does not validate the fractions and raises no
  \<open>InvalidArgument\<close>: for every pair of fractions, ordered or not, inside \<open>[0,1]\<close> or
  not, and every state, it returns a state whose three sets together hold every document
  and whose document list is the one it was given.
\<close>

theorem never_raises:
  "\<exists>r. partition_docs f1 f2 s = Inr r \<and>
        train_docs r \<union> dev_docs r \<union> test_docs r = set (docs s) \<and> docs r = docs s"
  by (simp add: partition_docs_def split_cell_cover split_cell_frame)

subsection \<open>Determinism\<close>

text \<open>
  Claim C4. Two runs of the cell on the same set of documents with the same valid
  fractions give the same train, dev and test sets. The two runs may start from different
  states: the store may list the documents in another order, and the variables of the cell
  may hold other values (those of an earlier run, say). Names are pairwise different in
  both listings.
\<close>

theorem determinism:
  assumes "set (docs s) = set (docs s')"
    and "distinct (map name (docs s))" and "distinct (map name (docs s'))"
    and "0 \<le> f1" and "f1 \<le> f2" and "f2 \<le> 1"
  shows "train_docs (split_cell (f1, f2) s) = train_docs (split_cell (f1, f2) s') \<and>
         dev_docs (split_cell (f1, f2) s) = dev_docs (split_cell (f1, f2) s') \<and>
         test_docs (split_cell (f1, f2) s) = test_docs (split_cell (f1, f2) s')"
proof -
  have "sort_key name (docs s) = sort_key name (docs s')"
    using assms(1-3) by (rule same_set_same_rank)
  then show ?thesis
    using same_rank_same_split [of s s' f1 f2] by blast
qed

text \<open>
  The theorem at two documents, listed in opposite orders, the second state with stale
  values in \<open>ld\<close> and \<open>train_docs\<close>.
\<close>

theorem determinism_witness:
  "set (docs (loaded [\<lparr>name = ''x''\<rparr>, \<lparr>name = ''y''\<rparr>]))
     = set (docs ((loaded [\<lparr>name = ''y''\<rparr>, \<lparr>name = ''x''\<rparr>])\<lparr>ld := 7, train_docs := {\<lparr>name = ''z''\<rparr>}\<rparr>)) \<and>
   distinct (map name (docs (loaded [\<lparr>name = ''x''\<rparr>, \<lparr>name = ''y''\<rparr>]))) \<and>
   distinct (map name (docs ((loaded [\<lparr>name = ''y''\<rparr>, \<lparr>name = ''x''\<rparr>])\<lparr>ld := 7, train_docs := {\<lparr>name = ''z''\<rparr>}\<rparr>))) \<and>
   (0::rat) \<le> 1 / 2 \<and> (1 / 2 :: rat) \<le> 3 / 4 \<and> (3 / 4 :: rat) \<le> 1 \<and>
   train_docs (split_cell (1 / 2, 3 / 4) (loaded [\<lparr>name = ''x''\<rparr>, \<lparr>name = ''y''\<rparr>]))
     = train_docs (split_cell (1 / 2, 3 / 4)
         ((loaded [\<lparr>name = ''y''\<rparr>, \<lparr>name = ''x''\<rparr>])\<lparr>ld := 7, train_docs := {\<lparr>name = ''z''\<rparr>}\<rparr>)) \<and>
   dev_docs (split_cell (1 / 2, 3 / 4) (loaded [\<lparr>name = ''x''\<rparr>, \<lparr>name = ''y''\<rparr>]))
     = dev_docs (split_cell (1 / 2, 3 / 4)
         ((loaded [\<lparr>name = ''y''\<rparr>, \<lparr>name = ''x''\<rparr>])\<lparr>ld := 7, train_docs := {\<lparr>name = ''z''\<rparr>}\<rparr>)) \<and>
   test_docs (split_cell (1 / 2, 3 / 4) (loaded [\<lparr>name = ''x''\<rparr>, \<lparr>name = ''y''\<rparr>]))
     = test_docs (split_cell (1 / 2, 3 / 4)
         ((loaded [\<lparr>name = ''y''\<rparr>, \<lparr>name = ''x''\<rparr>])\<lparr>ld := 7, train_docs := {\<lparr>name = ''z''\<rparr>}\<rparr>))"
proof -
  have e: "set (docs (loaded [\<lparr>name = ''x''\<rparr>, \<lparr>name = ''y''\<rparr>]))
     = set (docs ((loaded [\<lparr>name = ''y''\<rparr>, \<lparr>name = ''x''\<rparr>])\<lparr>ld := 7, train_docs := {\<lparr>name = ''z''\<rparr>}\<rparr>))"
    by (auto simp: loaded_def)
  have h: "distinct (map name (docs (loaded [\<lparr>name = ''x''\<rparr>, \<lparr>name = ''y''\<rparr>])))"
    "distinct (map name (docs ((loaded [\<lparr>name = ''y''\<rparr>, \<lparr>name = ''x''\<rparr>])\<lparr>ld := 7, train_docs := {\<lparr>name = ''z''\<rparr>}\<rparr>)))"
    by (simp_all add: loaded_def)
  have r: "(0::rat) \<le> 1 / 2" "(1 / 2 :: rat) \<le> 3 / 4" "(3 / 4 :: rat) \<le> 1"
    by simp_all
  show ?thesis
    using e h r determinism [OF e h r] by blast
qed

subsection \<open>The scenario of four documents\<close>

text \<open>
  Claim C5. With the notebook's own fractions \<open>0.5\<close> and \<open>0.75\<close>, the documents named
  \<open>a\<close>, \<open>b\<close>, \<open>c\<close>, \<open>d\<close> are split into train \<open>{a, b}\<close>, dev \<open>{c}\<close> and test
  \<open>{d}\<close>.
\<close>

theorem scenario_abcd:
  "train_docs (split_cell tutorial_splits
      (loaded [\<lparr>name = ''a''\<rparr>, \<lparr>name = ''b''\<rparr>, \<lparr>name = ''c''\<rparr>, \<lparr>name = ''d''\<rparr>]))
     = {\<lparr>name = ''a''\<rparr>, \<lparr>name = ''b''\<rparr>} \<and>
   dev_docs (split_cell tutorial_splits
      (loaded [\<lparr>name = ''a''\<rparr>, \<lparr>name = ''b''\<rparr>, \<lparr>name = ''c''\<rparr>, \<lparr>name = ''d''\<rparr>]))
     = {\<lparr>name = ''c''\<rparr>} \<and>
   test_docs (split_cell tutorial_splits
      (loaded [\<lparr>name = ''a''\<rparr>, \<lparr>name = ''b''\<rparr>, \<lparr>name = ''c''\<rparr>, \<lparr>name = ''d''\<rparr>]))
     = {\<lparr>name = ''d''\<rparr>}"
  by (simp add: split_cell_def tutorial_splits_def loaded_def insert_commute)

subsection \<open>Edge cases\<close>


subsection \<open>Fractions 0 and 1\<close>




subsection \<open>The input is left as it was\<close>

text \<open>
  Claim C8. The cell does not change its input: the list of documents after the cell is
  the list before it, record by record, so each document has the name it had. Nor does the
  cell read anything but that list and the fractions: the state it returns is the one it
  returns from a state that holds the same documents and nothing else. The statements of
  the cell embedded here (from \<open>ld = len(docs)\<close> to the end of the loop) call nothing
  that reads or writes outside these variables.
\<close>

theorem input_unchanged:
  "docs (split_cell sp s) = docs s \<and>
   map name (docs (split_cell sp s)) = map name (docs s) \<and>
   split_cell sp s = split_cell sp (loaded (docs s))"
proof -
  obtain f1 f2 where sp: "sp = (f1, f2)"
    by (cases sp)
  have l: "docs (loaded (docs s)) = docs s"
    by (simp add: loaded_def)
  have "split_cell sp s = split_cell sp (loaded (docs s))"
    unfolding sp
    by (rule cell_state.equality)
      (simp_all add: split_cell_frame split_cell_vars split_cell_train split_cell_dev
        split_cell_test l)
  moreover have "docs (split_cell sp s) = docs s"
    by (rule split_cell_frame)
  ultimately show ?thesis
    by (intro conjI) simp_all
qed

subsection \<open>The order of the input list\<close>

text \<open>
  Claim C9. Two lists that are permutations of the same documents, with pairwise different
  names, give the same train, dev and test sets, whatever the fractions: the cell sorts by
  name before it ranks.
\<close>

theorem order_insensitive:
  assumes "mset (docs s) = mset (docs s')" and "distinct (map name (docs s))"
  shows "train_docs (split_cell (f1, f2) s) = train_docs (split_cell (f1, f2) s') \<and>
         dev_docs (split_cell (f1, f2) s) = dev_docs (split_cell (f1, f2) s') \<and>
         test_docs (split_cell (f1, f2) s) = test_docs (split_cell (f1, f2) s')"
proof -
  have "inj_on name (set (docs s))"
    using assms(2) by (simp add: distinct_map)
  with assms(1) have "sort_key name (docs s) = sort_key name (docs s')"
    by (rule sort_key_eq_sort_key)
  then show ?thesis
    using same_rank_same_split [of s s' f1 f2] by blast
qed

text \<open>
  The theorem at two orders of three documents, with the notebook's fractions.
\<close>

theorem order_insensitive_witness:
  "mset (docs (loaded [\<lparr>name = ''m''\<rparr>, \<lparr>name = ''k''\<rparr>, \<lparr>name = ''l''\<rparr>]))
     = mset (docs (loaded [\<lparr>name = ''l''\<rparr>, \<lparr>name = ''m''\<rparr>, \<lparr>name = ''k''\<rparr>])) \<and>
   distinct (map name (docs (loaded [\<lparr>name = ''m''\<rparr>, \<lparr>name = ''k''\<rparr>, \<lparr>name = ''l''\<rparr>]))) \<and>
   train_docs (split_cell tutorial_splits (loaded [\<lparr>name = ''m''\<rparr>, \<lparr>name = ''k''\<rparr>, \<lparr>name = ''l''\<rparr>]))
     = train_docs (split_cell tutorial_splits (loaded [\<lparr>name = ''l''\<rparr>, \<lparr>name = ''m''\<rparr>, \<lparr>name = ''k''\<rparr>])) \<and>
   dev_docs (split_cell tutorial_splits (loaded [\<lparr>name = ''m''\<rparr>, \<lparr>name = ''k''\<rparr>, \<lparr>name = ''l''\<rparr>]))
     = dev_docs (split_cell tutorial_splits (loaded [\<lparr>name = ''l''\<rparr>, \<lparr>name = ''m''\<rparr>, \<lparr>name = ''k''\<rparr>])) \<and>
   test_docs (split_cell tutorial_splits (loaded [\<lparr>name = ''m''\<rparr>, \<lparr>name = ''k''\<rparr>, \<lparr>name = ''l''\<rparr>]))
     = test_docs (split_cell tutorial_splits (loaded [\<lparr>name = ''l''\<rparr>, \<lparr>name = ''m''\<rparr>, \<lparr>name = ''k''\<rparr>]))"
proof -
  have e: "mset (docs (loaded [\<lparr>name = ''m''\<rparr>, \<lparr>name = ''k''\<rparr>, \<lparr>name = ''l''\<rparr>]))
     = mset (docs (loaded [\<lparr>name = ''l''\<rparr>, \<lparr>name = ''m''\<rparr>, \<lparr>name = ''k''\<rparr>]))"
    by (simp add: loaded_def)
  have h: "distinct (map name (docs (loaded [\<lparr>name = ''m''\<rparr>, \<lparr>name = ''k''\<rparr>, \<lparr>name = ''l''\<rparr>])))"
    by (simp add: loaded_def)
  show ?thesis
    using e h order_insensitive [OF e h, of "fst tutorial_splits" "snd tutorial_splits"] by simp
qed

subsection \<open>No validation, and still a partition\<close>




end
